theory Spec2Isabelle
  imports Main "HOL-Library.Word" "HOL-Library.AList"
begin

unbundle bit_operations_syntax

section \<open>The process monitor of magiskhide (proc\_monitor.cpp)\<close>

text \<open>
  A shallow embedding of \<^verbatim>\<open>native/jni/magiskhide/proc_monitor.cpp\<close>.  Global data
  structures become fields of a state record that every function takes and returns;
  ptrace, kill and fork requests are appended to a log kept in that record; what the
  kernel answers (procfs contents, wait statuses, event messages) is an explicit input.
  Undefined behaviour of the C++ (writing through a null pointer, indexing a
  \<^verbatim>\<open>std::bitset\<close> out of range) is a value of type \<open>fault\<close>.
\<close>

datatype fault = NullDeref | OutOfBounds

subsection \<open>Package database parser\<close>

text \<open>
  Rules: \<^verbatim>\<open>set<pair<string, string>> hide_set\<close>, here the list of its pairs in iteration
  order.  \<^verbatim>\<open>map<int, vector<string_view>> uid_proc_map\<close> is a partial map from the integer
  key to the vector.
\<close>

type_synonym hide_set_t = "(string \<times> string) list"
type_synonym uid_proc_map_t = "int \<rightharpoonup> string list"

text \<open>
  \<^verbatim>\<open>strchr(p, c)\<close> on the NUL-terminated text \<open>p\<close>, for \<open>c\<close> other than NUL: \<open>None\<close> is the
  null pointer; \<open>Some (before, at)\<close> splits the text at the first occurrence, \<open>at\<close> starting
  with \<open>c\<close> itself.
\<close>

primrec strchr :: "char \<Rightarrow> string \<Rightarrow> (string \<times> string) option" where
  "strchr c [] = None"
| "strchr c (x # xs) =
     (if x = c then Some ([], x # xs)
      else (case strchr c xs of None \<Rightarrow> None | Some (b, a) \<Rightarrow> Some (x # b, a)))"

text \<open>
  One pass through lines 89 to 98 of the loop body: find \<^verbatim>\<open>'='\<close>, cut the key, step over
  \<^verbatim>\<open>="\<close>, find the closing quote, cut the value, step over the quote and the following
  character.  The second \<^verbatim>\<open>strchr\<close> result is written through without a null check.
  Stepping two characters from the last character of the record lands on the original
  terminator of the line (the line's last character has been overwritten by NUL before),
  so it stays inside the buffer and reads as the empty text.
\<close>

datatype attr_step = NoEq | NoQuote | Attr string string string

definition next_attr :: "string \<Rightarrow> attr_step" where
  "next_attr tok =
     (case strchr CHR ''='' tok of
        None \<Rightarrow> NoEq
      | Some (key, eql) \<Rightarrow>
          (case strchr CHR 0x22 (drop 2 eql) of
             None \<Rightarrow> NoQuote
           | Some (val, q) \<Rightarrow> Attr key val (drop 2 q)))"

text \<open>Lines 110 to 113: every rule of the package \<open>pkg\<close> appends its process to the vector at \<open>uid\<close>.\<close>

definition emplace_back :: "int \<Rightarrow> string \<Rightarrow> uid_proc_map_t \<Rightarrow> uid_proc_map_t" where
  "emplace_back uid p m = m(uid \<mapsto> (case m uid of None \<Rightarrow> [] | Some v \<Rightarrow> v) @ [p])"

fun add_procs :: "hide_set_t \<Rightarrow> string \<Rightarrow> int \<Rightarrow> uid_proc_map_t \<Rightarrow> uid_proc_map_t" where
  "add_procs [] pkg uid m = m"
| "add_procs (hide # hs) pkg uid m =
     add_procs hs pkg uid (if fst hide = pkg then emplace_back uid (snd hide) m else m)"

text \<open>Lines 100 to 105: the first rule whose package equals the value sets \<open>pkg\<close>.\<close>

fun find_pkg :: "hide_set_t \<Rightarrow> string \<Rightarrow> string \<Rightarrow> string" where
  "find_pkg [] v pkg = pkg"
| "find_pkg (hide # hs) v pkg = (if fst hide = v then fst hide else find_pkg hs v pkg)"

text \<open>
  The loop of lines 88 to 115, \<open>parse_int\<close> (from utils, not in this file) being a parameter.
  \<open>pkg\<close> is the \<^verbatim>\<open>string_view pkg\<close>, empty at first.
\<close>

function scan_attrs ::
  "(string \<Rightarrow> int) \<Rightarrow> hide_set_t \<Rightarrow> string \<Rightarrow> string \<Rightarrow> uid_proc_map_t \<Rightarrow> fault + uid_proc_map_t"
where
  "scan_attrs parse_int hs pkg tok m =
     (if tok = [] then Inr m
      else (case next_attr tok of
              NoEq \<Rightarrow> Inr m
            | NoQuote \<Rightarrow> Inl NullDeref
            | Attr key val rest \<Rightarrow>
                if key = ''name'' then
                  (if find_pkg hs val pkg = [] then Inr m
                   else scan_attrs parse_int hs (find_pkg hs val pkg) rest m)
                else if key = ''userId'' \<or> key = ''sharedUserId'' then
                  scan_attrs parse_int hs pkg rest (add_procs hs pkg (parse_int val) m)
                else scan_attrs parse_int hs pkg rest m))"
  by pat_completeness auto

text \<open>
  \<^verbatim>\<open>parse_packages_xml\<close>: the line is given without its terminator.  The last character is
  overwritten by NUL and the first nine are skipped.  The result is always \<^verbatim>\<open>true\<close>.
\<close>

definition parse_packages_xml ::
  "(string \<Rightarrow> int) \<Rightarrow> hide_set_t \<Rightarrow> string \<Rightarrow> uid_proc_map_t \<Rightarrow> fault + (bool \<times> uid_proc_map_t)"
where
  "parse_packages_xml parse_int hs s m =
     (if take 9 s \<noteq> ''<package '' then Inr (True, m)
      else (case scan_attrs parse_int hs [] (butlast (drop 9 s)) m of
              Inl f \<Rightarrow> Inl f
            | Inr m' \<Rightarrow> Inr (True, m')))"

text \<open>
  Modelled from the spec: \<^verbatim>\<open>file_readline\<close> is a helper of utils and not in this file.  The
  package database is consumed as a sequence of lines, each handed to the callback; the
  reading stops when the callback returns \<^verbatim>\<open>false\<close>.
\<close>

fun file_readline ::
  "string list \<Rightarrow> (string \<Rightarrow> 'a \<Rightarrow> fault + (bool \<times> 'a)) \<Rightarrow> 'a \<Rightarrow> fault + 'a" where
  "file_readline [] fn m = Inr m"
| "file_readline (l # ls) fn m =
     (case fn l m of
        Inl f \<Rightarrow> Inl f
      | Inr (go, m') \<Rightarrow> if go then file_readline ls fn m' else Inr m')"

text \<open>\<^verbatim>\<open>update_uid_map\<close>: clear, then parse \<^verbatim>\<open>/data/system/packages.xml\<close>, here its lines.\<close>

definition update_uid_map ::
  "(string \<Rightarrow> int) \<Rightarrow> hide_set_t \<Rightarrow> string list \<Rightarrow> uid_proc_map_t \<Rightarrow> fault + uid_proc_map_t"
where
  "update_uid_map parse_int hs packages_xml m =
     file_readline packages_xml (parse_packages_xml parse_int hs) Map.empty"

text \<open>
  The attributes that the loop can cut out of a record, in order: \<open>next_attr\<close> repeated until
  the text ends or no further attribute can be cut.  This is the tokenisation alone,
  without the dispatch on the key.
\<close>

function attrs_of :: "string \<Rightarrow> (string \<times> string) list" where
  "attrs_of tok =
     (if tok = [] then []
      else (case next_attr tok of
              NoEq \<Rightarrow> []
            | NoQuote \<Rightarrow> []
            | Attr key val rest \<Rightarrow> (key, val) # attrs_of rest))"
  by pat_completeness auto

definition is_uid_attr :: "string \<times> string \<Rightarrow> bool" where
  "is_uid_attr a = (fst a = ''userId'' \<or> fst a = ''sharedUserId'')"

text \<open>
  Some \<^verbatim>\<open>name\<close> attribute whose value is the package of a rule stands before some
  \<^verbatim>\<open>userId\<close> or \<^verbatim>\<open>sharedUserId\<close> attribute.
\<close>

fun name_before_uid :: "hide_set_t \<Rightarrow> (string \<times> string) list \<Rightarrow> bool" where
  "name_before_uid hs [] = False"
| "name_before_uid hs (a # as) =
     ((fst a = ''name'' \<and> snd a \<in> fst ` set hs \<and> list_ex is_uid_attr as)
      \<or> name_before_uid hs as)"

text \<open>
  A decimal reader, to have a value for the parameter \<open>parse_int\<close> at concrete inputs:
  -1 at any character that is not a digit.
\<close>

fun decimal_from :: "int \<Rightarrow> string \<Rightarrow> int" where
  "decimal_from acc [] = acc"
| "decimal_from acc (c # cs) =
     (if (48::nat) \<le> of_char c \<and> of_char c \<le> (57::nat)
      then decimal_from (acc * 10 + (int (of_char c) - 48)) cs else -1)"

definition decimal :: "string \<Rightarrow> int" where
  "decimal s = decimal_from 0 s"

subsection \<open>Kernel interface\<close>

text \<open>
  The fields of \<^verbatim>\<open>struct stat\<close> that the file reads.  A mount-namespace identity is the
  pair of \<open>st_dev\<close> and \<open>st_ino\<close> of \<^verbatim>\<open>/proc/<pid>/ns/mnt\<close>.
\<close>

record stat =
  st_dev :: nat
  st_ino :: nat
  st_uid :: nat

text \<open>
  What the kernel answers while one handler or one loop iteration runs:
  \<^item> \<open>cmdline_of pid\<close>: \<open>None\<close> when \<^verbatim>\<open>fopen("/proc/<pid>/cmdline")\<close> fails, else the C string
    that \<^verbatim>\<open>fgets\<close> leaves in the buffer;
  \<^item> \<open>lstat_proc pid\<close>: the result of \<^verbatim>\<open>lstat("/proc/<pid>")\<close>, \<open>None\<close> when it fails;
  \<^item> \<open>ns_mnt pid\<close>: the result of \<^verbatim>\<open>stat("/proc/<pid>/ns/mnt")\<close>, \<open>None\<close> when it fails;
  \<^item> \<open>stat_ppid pid\<close>: the fourth field of \<^verbatim>\<open>/proc/<pid>/stat\<close>, \<open>None\<close> when the file
    cannot be opened;
  \<^item> \<open>task_dir pid\<close>: the thread ids that \<^verbatim>\<open>crawl_procfs\<close> (utils, not in this file) finds
    under \<^verbatim>\<open>/proc/<pid>/task\<close>, and \<open>proc_dir\<close> the process ids it finds under \<^verbatim>\<open>/proc\<close>;
  \<^item> \<open>waitable tid\<close>: whether \<^verbatim>\<open>waitpid(tid, nullptr, __WALL | __WNOTHREAD | WNOHANG)\<close>
    returns \<open>tid\<close>;
  \<^item> \<open>stack_st\<close>: the indeterminate content of an uninitialised local \<^verbatim>\<open>struct stat\<close>.
\<close>

record procfs =
  cmdline_of :: "nat \<Rightarrow> string option"
  lstat_proc :: "nat \<Rightarrow> stat option"
  ns_mnt :: "nat \<Rightarrow> stat option"
  stat_ppid :: "nat \<Rightarrow> int option"
  task_dir :: "nat \<Rightarrow> nat list"
  proc_dir :: "nat list"
  waitable :: "nat \<Rightarrow> bool"
  stack_st :: stat

datatype ptrace_option =
  PTRACE_O_TRACEFORK | PTRACE_O_TRACEVFORK | PTRACE_O_TRACECLONE
| PTRACE_O_TRACEEXEC | PTRACE_O_TRACEEXIT

text \<open>
  The requests the monitor sends, in the order sent.  The second argument of
  \<open>PTRACE_DETACH\<close> and of \<open>PTRACE_CONT\<close> is the signal delivered (0 for none);
  \<open>Waitpid\<close> is the blocking wait of \<^verbatim>\<open>new_zygote\<close>; \<open>Hide_daemon pid\<close> is
  \<^verbatim>\<open>if (fork_dont_care() == 0) hide_daemon(pid)\<close>.
\<close>

datatype request =
  PTRACE_ATTACH nat
| PTRACE_DETACH nat nat
| PTRACE_CONT nat nat
| PTRACE_SETOPTIONS nat "ptrace_option list"
| PTRACE_GETEVENTMSG nat
| Waitpid nat
| Tgkill nat nat nat
| Hide_daemon nat

definition SIGTRAP :: nat where "SIGTRAP = 5"
definition SIGSTOP :: nat where "SIGSTOP = 19"

definition PTRACE_EVENT_FORK :: "32 word" where "PTRACE_EVENT_FORK = 1"
definition PTRACE_EVENT_VFORK :: "32 word" where "PTRACE_EVENT_VFORK = 2"
definition PTRACE_EVENT_CLONE :: "32 word" where "PTRACE_EVENT_CLONE = 3"
definition PTRACE_EVENT_EXEC :: "32 word" where "PTRACE_EVENT_EXEC = 4"
definition PTRACE_EVENT_EXIT :: "32 word" where "PTRACE_EVENT_EXIT = 6"

text \<open>
  The wait status is a 32-bit \<^verbatim>\<open>int\<close>.  \<^verbatim>\<open>WIFSTOPPED\<close> and \<^verbatim>\<open>WSTOPSIG\<close> are the macros of
  the C library's \<^verbatim>\<open>sys/wait.h\<close> (not in this file), \<^verbatim>\<open>WEVENT\<close> is line 315.
\<close>

definition WIFSTOPPED :: "32 word \<Rightarrow> bool" where
  "WIFSTOPPED s = (s AND 0x7f = 0x7f)"

definition WSTOPSIG :: "32 word \<Rightarrow> nat" where
  "WSTOPSIG s = unat (drop_bit 8 (s AND 0xff00))"

definition WEVENT :: "32 word \<Rightarrow> 32 word" where
  "WEVENT s = drop_bit 16 (s AND 0xffff0000)"

subsection \<open>Monitor state\<close>

definition PID_MAX :: nat where "PID_MAX = 32768"

text \<open>
  \<^verbatim>\<open>zygote_map\<close> is the list of its entries (keys distinct), \<^verbatim>\<open>attaches\<close> and \<^verbatim>\<open>detaches\<close>
  are the sets of indices whose bit is set.  \<^verbatim>\<open>bitset<PID_MAX>::operator[]\<close> does not check
  its index: at \<open>PID_MAX\<close> or above the access is outside the bitset.
\<close>

record monitor =
  zygote_map :: "(nat \<times> stat) list"
  uid_proc_map :: uid_proc_map_t
  attaches :: "nat set"
  detaches :: "nat set"
  requests :: "request list"

definition bit_test :: "nat set \<Rightarrow> nat \<Rightarrow> fault + bool" where
  "bit_test bs i = (if i < PID_MAX then Inr (i \<in> bs) else Inl OutOfBounds)"

definition bit_assign :: "nat set \<Rightarrow> nat \<Rightarrow> bool \<Rightarrow> fault + nat set" where
  "bit_assign bs i v =
     (if i < PID_MAX then Inr (if v then insert i bs else bs - {i}) else Inl OutOfBounds)"

definition send :: "request list \<Rightarrow> monitor \<Rightarrow> monitor" where
  "send rs s = s\<lparr>requests := requests s @ rs\<rparr>"

text \<open>\<^verbatim>\<open>read_ns\<close>: \<^verbatim>\<open>stat\<close> returns 0 and fills \<open>st\<close>, or returns -1 and leaves it.\<close>

definition read_ns :: "procfs \<Rightarrow> nat \<Rightarrow> stat \<Rightarrow> int \<times> stat" where
  "read_ns k pid st = (case ns_mnt k pid of None \<Rightarrow> (-1, st) | Some st' \<Rightarrow> (0, st'))"

text \<open>\<^verbatim>\<open>parse_ppid\<close>: -1 when the file cannot be opened.\<close>

definition parse_ppid :: "procfs \<Rightarrow> nat \<Rightarrow> int" where
  "parse_ppid k pid = (case stat_ppid k pid of None \<Rightarrow> -1 | Some ppid \<Rightarrow> ppid)"

subsection \<open>Detaching and classification\<close>

text \<open>The callback of lines 225 to 237, over the thread ids of the task directory.\<close>

fun detach_threads :: "procfs \<Rightarrow> nat \<Rightarrow> nat list \<Rightarrow> monitor \<Rightarrow> fault + monitor" where
  "detach_threads k pid [] s = Inr s"
| "detach_threads k pid (tid # tids) s =
     (if tid \<noteq> pid then
        (if waitable k tid then detach_threads k pid tids (send [PTRACE_DETACH tid 0] s)
         else (case bit_assign (detaches s) tid True of
                 Inl f \<Rightarrow> Inl f
               | Inr d \<Rightarrow>
                   detach_threads k pid tids (send [Tgkill pid tid SIGSTOP] (s\<lparr>detaches := d\<rparr>))))
      else detach_threads k pid tids s)"

text \<open>\<^verbatim>\<open>detach_pid\<close>: clear the bit, detach with the signal given, then visit the threads.\<close>

definition detach_pid :: "procfs \<Rightarrow> nat \<Rightarrow> nat \<Rightarrow> monitor \<Rightarrow> fault + monitor" where
  "detach_pid k pid signal s =
     (case bit_assign (attaches s) pid False of
        Inl f \<Rightarrow> Inl f
      | Inr a \<Rightarrow>
          detach_threads k pid (task_dir k pid)
            (send [PTRACE_DETACH pid signal] (s\<lparr>attaches := a\<rparr>)))"

text \<open>Lines 263 to 270: \<open>mnt_ns\<close> stays true unless some registered zygote has the same identity.\<close>

fun mnt_ns :: "(nat \<times> stat) list \<Rightarrow> stat \<Rightarrow> bool" where
  "mnt_ns [] st = True"
| "mnt_ns (zit # zs) st =
     (if st_ino (snd zit) = st_ino st \<and> st_dev (snd zit) = st_dev st then False
      else mnt_ns zs st)"

text \<open>
  The loop of lines 259 to 285 over the vector found for the uid.  \<open>True\<close>: line 275 is
  reached (target found).  \<open>False\<close>: the loop ends, by \<^verbatim>\<open>break\<close> or at the end of the vector.
\<close>

fun find_target ::
  "procfs \<Rightarrow> nat \<Rightarrow> stat \<Rightarrow> (nat \<times> stat) list \<Rightarrow> string \<Rightarrow> string list \<Rightarrow> bool" where
  "find_target k pid st zm cmdline [] = False"
| "find_target k pid st zm cmdline (p # ps) =
     (if p = cmdline then mnt_ns zm (snd (read_ns k pid st))
      else find_target k pid st zm cmdline ps)"

text \<open>
  \<^verbatim>\<open>check_pid\<close>.  \<^verbatim>\<open>true\<close> with the state as it was when the command line cannot be opened
  (line 247); \<^verbatim>\<open>false\<close> with the state as it was when it starts with \<^verbatim>\<open>zygote\<close> (line 251);
  else \<^verbatim>\<open>lstat\<close> fills \<open>st\<close> (left as it was on failure), the uid is looked up, and the
  process is either handed to the hide daemon after a detach with SIGSTOP, or detached.
\<close>

definition check_pid :: "procfs \<Rightarrow> nat \<Rightarrow> monitor \<Rightarrow> fault + (bool \<times> monitor)" where
  "check_pid k pid s =
     (case cmdline_of k pid of
        None \<Rightarrow> Inr (True, s)
      | Some cmdline \<Rightarrow>
          if take 6 cmdline = ''zygote'' then Inr (False, s)
          else
            (let st = (case lstat_proc k pid of None \<Rightarrow> stack_st k | Some st' \<Rightarrow> st');
                 uid = int (st_uid st mod 100000)
             in if (case uid_proc_map s uid of
                      None \<Rightarrow> False
                    | Some procs \<Rightarrow> find_target k pid st (zygote_map s) cmdline procs)
                then (case detach_pid k pid SIGSTOP s of
                        Inl f \<Rightarrow> Inl f
                      | Inr s' \<Rightarrow> Inr (True, send [Hide_daemon pid] s'))
                else (case detach_pid k pid 0 s of
                        Inl f \<Rightarrow> Inl f
                      | Inr s' \<Rightarrow> Inr (True, s'))))"

subsection \<open>Zygote registration\<close>

text \<open>
  \<^verbatim>\<open>new_zygote\<close>: nothing happens when \<^verbatim>\<open>read_ns\<close> fails (the \<^verbatim>\<open>stat\<close> of the namespace link);
  a known process gets the identity just read; a new one is entered, attached, waited for,
  given its options and resumed.
\<close>

definition new_zygote :: "procfs \<Rightarrow> nat \<Rightarrow> monitor \<Rightarrow> monitor" where
  "new_zygote k pid s =
     (case ns_mnt k pid of
        None \<Rightarrow> s
      | Some st \<Rightarrow>
          (case map_of (zygote_map s) pid of
             Some old \<Rightarrow> s\<lparr>zygote_map := AList.update pid st (zygote_map s)\<rparr>
           | None \<Rightarrow>
               send [PTRACE_ATTACH pid, Waitpid pid,
                     PTRACE_SETOPTIONS pid
                       [PTRACE_O_TRACEFORK, PTRACE_O_TRACEVFORK, PTRACE_O_TRACEEXIT],
                     PTRACE_CONT pid 0]
                 (s\<lparr>zygote_map := AList.update pid st (zygote_map s)\<rparr>)))"

text \<open>\<^verbatim>\<open>check_zygote\<close>: the callback of lines 126 to 136 over the process ids under \<^verbatim>\<open>/proc\<close>.\<close>

fun check_zygote_pids :: "procfs \<Rightarrow> nat list \<Rightarrow> monitor \<Rightarrow> monitor" where
  "check_zygote_pids k [] s = s"
| "check_zygote_pids k (pid # pids) s =
     check_zygote_pids k pids
       (case cmdline_of k pid of
          None \<Rightarrow> s
        | Some buf \<Rightarrow> if take 6 buf = ''zygote'' \<and> parse_ppid k pid = 1 then new_zygote k pid s else s)"

definition check_zygote :: "procfs \<Rightarrow> monitor \<Rightarrow> monitor" where
  "check_zygote k s = check_zygote_pids k (proc_dir k) s"

subsection \<open>The trace loop\<close>

text \<open>
  The \<^verbatim>\<open>RunFinally detach_task\<close> of lines 355 to 363, as it runs when \<^verbatim>\<open>detach\<close> is true.
\<close>

definition detach_task :: "nat \<Rightarrow> monitor \<Rightarrow> fault + monitor" where
  "detach_task pid s =
     (case bit_assign (attaches s) pid False of
        Inl f \<Rightarrow> Inl f
      | Inr a \<Rightarrow>
          (case bit_assign (detaches s) pid False of
             Inl f \<Rightarrow> Inl f
           | Inr d \<Rightarrow> Inr (send [PTRACE_DETACH pid 0] (s\<lparr>attaches := a, detaches := d\<rparr>))))"

text \<open>Lines 372 to 385: an event of a registered zygote, \<open>msg\<close> being the event message.\<close>

definition zygote_event :: "nat \<Rightarrow> 32 word \<Rightarrow> nat \<Rightarrow> monitor \<Rightarrow> fault + monitor" where
  "zygote_event pid status msg s =
     (if WEVENT status = PTRACE_EVENT_FORK \<or> WEVENT status = PTRACE_EVENT_VFORK then
        (case bit_assign (attaches s) msg True of
           Inl f \<Rightarrow> Inl f
         | Inr a \<Rightarrow> Inr (send [PTRACE_CONT pid 0] (s\<lparr>attaches := a\<rparr>)))
      else detach_task pid (s\<lparr>zygote_map := AList.delete pid (zygote_map s)\<rparr>))"

text \<open>Lines 387 to 400: an event of any other tracee.\<close>

definition child_event :: "procfs \<Rightarrow> nat \<Rightarrow> 32 word \<Rightarrow> monitor \<Rightarrow> fault + monitor" where
  "child_event k pid status s =
     (if WEVENT status = PTRACE_EVENT_CLONE then
        (case bit_test (attaches s) pid of
           Inl f \<Rightarrow> Inl f
         | Inr False \<Rightarrow> Inr (send [PTRACE_CONT pid 0] s)
         | Inr True \<Rightarrow>
             (case check_pid k pid s of
                Inl f \<Rightarrow> Inl f
              | Inr (True, s') \<Rightarrow> Inr s'
              | Inr (False, s') \<Rightarrow> Inr (send [PTRACE_CONT pid 0] s')))
      else detach_task pid s)"

text \<open>
  One iteration of the \<^verbatim>\<open>for (;;)\<close> of \<^verbatim>\<open>proc_monitor\<close>: \<open>wpid\<close> and \<open>status\<close> are what
  \<^verbatim>\<open>waitpid(-1, &status, __WALL | __WNOTHREAD)\<close> returned, \<open>msg\<close> is the content of the local
  \<^verbatim>\<open>unsigned long msg\<close> after line 370: what \<^verbatim>\<open>PTRACE_GETEVENTMSG\<close> stores, or, when that
  request fails (its result is not looked at), whatever the uninitialised local holds.
\<close>

definition proc_monitor_iter ::
  "procfs \<Rightarrow> int \<Rightarrow> 32 word \<Rightarrow> nat \<Rightarrow> monitor \<Rightarrow> fault + monitor" where
  "proc_monitor_iter k wpid status msg s =
     (if wpid < 0 then Inr s
      else
        (let pid = nat wpid in
         if \<not> WIFSTOPPED status then detach_task pid s
         else
           (case bit_test (detaches s) pid of
              Inl f \<Rightarrow> Inl f
            | Inr True \<Rightarrow> detach_task pid s
            | Inr False \<Rightarrow>
                if WSTOPSIG status = SIGTRAP \<and> WEVENT status \<noteq> 0 then
                  (if map_of (zygote_map s) pid \<noteq> None
                   then zygote_event pid status msg (send [PTRACE_GETEVENTMSG pid] s)
                   else child_event k pid status (send [PTRACE_GETEVENTMSG pid] s))
                else if WSTOPSIG status = SIGSTOP then
                  Inr (send [PTRACE_SETOPTIONS pid
                               [PTRACE_O_TRACECLONE, PTRACE_O_TRACEEXEC, PTRACE_O_TRACEEXIT],
                             PTRACE_CONT pid 0] s)
                else Inr (send [PTRACE_CONT pid (WSTOPSIG status)] s))))"

text \<open>
  \<^verbatim>\<open>inotify_event\<close>, the SIGIO handler: \<open>readable\<close> is whether \<^verbatim>\<open>poll\<close> reports something to
  read, \<open>packages\<close> is \<open>Some\<close> of the lines of \<^verbatim>\<open>packages.xml\<close> when the event read is its
  close-after-write.
\<close>

definition inotify_event ::
  "(string \<Rightarrow> int) \<Rightarrow> hide_set_t \<Rightarrow> procfs \<Rightarrow> bool \<Rightarrow> string list option \<Rightarrow> monitor
     \<Rightarrow> fault + monitor" where
  "inotify_event parse_int hs k readable packages s =
     (if \<not> readable then Inr s
      else (case packages of
              None \<Rightarrow> Inr (check_zygote k s)
            | Some ls \<Rightarrow>
                (case update_uid_map parse_int hs ls (uid_proc_map s) of
                   Inl f \<Rightarrow> Inl f
                 | Inr m \<Rightarrow> Inr (check_zygote k (s\<lparr>uid_proc_map := m\<rparr>)))))"

text \<open>
  What the monitor thread reacts to: a return of the \<^verbatim>\<open>waitpid\<close> of the loop, or SIGIO
  (taken between two iterations).
\<close>

datatype event =
  Wait procfs int "32 word" nat
| Sigio procfs bool "string list option"

fun handle_event :: "(string \<Rightarrow> int) \<Rightarrow> hide_set_t \<Rightarrow> event \<Rightarrow> monitor \<Rightarrow> fault + monitor" where
  "handle_event parse_int hs (Wait k wpid status msg) s = proc_monitor_iter k wpid status msg s"
| "handle_event parse_int hs (Sigio k readable packages) s =
     inotify_event parse_int hs k readable packages s"

text \<open>The globals as the program starts: empty maps, all bits clear, nothing sent.\<close>

definition init :: monitor where
  "init = \<lparr>zygote_map = [], uid_proc_map = Map.empty, attaches = {}, detaches = {}, requests = []\<rparr>"

text \<open>
  \<^verbatim>\<open>proc_monitor\<close> over a finite run of events: the first \<^verbatim>\<open>check_zygote\<close> of line 335, then
  the loop.  A fault ends the run.
\<close>

fun monitor_loop ::
  "(string \<Rightarrow> int) \<Rightarrow> hide_set_t \<Rightarrow> event list \<Rightarrow> monitor \<Rightarrow> fault + monitor" where
  "monitor_loop parse_int hs [] s = Inr s"
| "monitor_loop parse_int hs (ev # evs) s =
     (case handle_event parse_int hs ev s of
        Inl f \<Rightarrow> Inl f
      | Inr s' \<Rightarrow> monitor_loop parse_int hs evs s')"

definition proc_monitor ::
  "(string \<Rightarrow> int) \<Rightarrow> hide_set_t \<Rightarrow> procfs \<Rightarrow> event list \<Rightarrow> monitor \<Rightarrow> fault + monitor" where
  "proc_monitor parse_int hs k0 evs s = monitor_loop parse_int hs evs (check_zygote k0 s)"

text \<open>The requests sent between two states.\<close>

definition new_requests :: "monitor \<Rightarrow> monitor \<Rightarrow> request list" where
  "new_requests s s' = drop (length (requests s)) (requests s')"

subsection \<open>Scenario data\<close>

text \<open>
  The processes of the scenarios of the specification: zygote 100 in mount namespace
  (5, 7), its children 101 (\<^verbatim>\<open>com.x\<close>, uid 1010123, namespace (5, 9), threads 101, 151 and
  152 of which 151 is waitable), 102 (still named \<^verbatim>\<open>zygote64\<close>), 103 (gone: nothing can be
  read) and 104 (\<^verbatim>\<open>com.other\<close>, uid 1099999).
\<close>

definition ns57 :: stat where "ns57 = \<lparr>st_dev = 5, st_ino = 7, st_uid = 0\<rparr>"
definition ns59 :: stat where "ns59 = \<lparr>st_dev = 5, st_ino = 9, st_uid = 0\<rparr>"

definition scenario :: procfs where
  "scenario =
     \<lparr>cmdline_of = (\<lambda>p. if p = 100 then Some ''zygote64'' else if p = 101 then Some ''com.x''
                          else if p = 102 then Some ''zygote64'' else if p = 104 then Some ''com.other''
                          else None),
      lstat_proc = (\<lambda>p. if p = 101 then Some \<lparr>st_dev = 4, st_ino = 101, st_uid = 1010123\<rparr>
                          else if p = 104 then Some \<lparr>st_dev = 4, st_ino = 104, st_uid = 1099999\<rparr> else None),
      ns_mnt = (\<lambda>p. if p = 100 then Some ns57 else if p = 101 then Some ns59 else None),
      stat_ppid = (\<lambda>p. if p = 100 then Some 1 else if p = 101 \<or> p = 102 then Some 100 else None),
      task_dir = (\<lambda>p. if p = 101 then [101, 151, 152] else [p]),
      proc_dir = [1, 100, 101],
      waitable = (\<lambda>t. t = 151),
      stack_st = \<lparr>st_dev = 0, st_ino = 0, st_uid = 0\<rparr>\<rparr>"

text \<open>The monitor once zygote 100 is registered and the rule for \<^verbatim>\<open>com.x\<close> is loaded.\<close>

definition registered :: monitor where
  "registered = init\<lparr>zygote_map := [(100, ns57)], uid_proc_map := [10123 \<mapsto> [''com.x'']]\<rparr>"

section \<open>Properties\<close>

subsection \<open>Termination of the attribute loop\<close>

lemma strchr_Some_length:
  "strchr c s = Some (b, a) \<Longrightarrow> a \<noteq> [] \<and> length a \<le> length s"
  by (induction s arbitrary: b a) (auto split: if_splits option.splits)

lemma next_attr_shorter:
  "next_attr tok = Attr k v rest \<Longrightarrow> length rest < length tok"
proof -
  assume h: "next_attr tok = Attr k v rest"
  then obtain key eql where e: "strchr CHR ''='' tok = Some (key, eql)"
    by (auto simp: next_attr_def split: option.splits)
  with h obtain q where q: "strchr CHR 0x22 (drop 2 eql) = Some (v, q)" and r: "rest = drop 2 q"
    by (auto simp: next_attr_def split: option.splits)
  from strchr_Some_length [OF e] have "eql \<noteq> []" "length eql \<le> length tok" by simp_all
  moreover from strchr_Some_length [OF q] have "length q \<le> length (drop 2 eql)" by simp
  ultimately show ?thesis using r by (cases eql) auto
qed

termination scan_attrs
  by (relation "measure (\<lambda>(p, hs, pkg, tok, m). length tok)") (auto dest: next_attr_shorter)

declare scan_attrs.simps [simp del]

termination attrs_of
  by (relation "measure length") (auto dest: next_attr_shorter)

declare attrs_of.simps [simp del]

subsection \<open>The package database\<close>

text \<open>
  C3. The parser is to be total and lenient: keys other than \<^verbatim>\<open>name\<close>, \<^verbatim>\<open>userId\<close> and
  \<^verbatim>\<open>sharedUserId\<close> are skipped, and a malformed record, such as one whose attribute value
  has no closing double quote, ends the parsing of that record only, without a crash.
  The code checks the result of the first \<^verbatim>\<open>strchr\<close> (no \<^verbatim>\<open>'='\<close>: leave the loop) and not the
  result of the second: on the record \<^verbatim>\<open><package name="com.x>\<close> the closing quote is not
  found and line 96 writes through the null pointer, whatever the rules and the map are.
\<close>

theorem parse_packages_xml_unclosed_quote:
  \<open>parse_packages_xml parse_int hs ''<package name="com.x>'' m = Inl NullDeref\<close>
  by (simp add: parse_packages_xml_def scan_attrs.simps next_attr_def)

text \<open>
  C7. Refreshing the uid map twice in a row from the same package database and the same
  rules gives the map of a single refresh: the second run (made only if the first one
  returned) starts from the first run's map, clears it and builds the same map again.
\<close>

theorem update_uid_map_twice:
  "(case update_uid_map parse_int hs f m of
      Inl e \<Rightarrow> Inl e
    | Inr m' \<Rightarrow> update_uid_map parse_int hs f m')
   = update_uid_map parse_int hs f m"
  by (simp add: update_uid_map_def split: sum.splits)

theorem update_uid_map_twice_witness:
  \<open>update_uid_map decimal [(''com.x'', ''com.x'')]
      [''<?xml version="1.0"?>'', ''<package name="com.x" userId="10123">'',
       ''<package name="com.y" userId="10124">''] [7 \<mapsto> [''old'']]
      = Inr [10123 \<mapsto> [''com.x'']]
    \<and> (case update_uid_map decimal [(''com.x'', ''com.x'')]
            [''<?xml version="1.0"?>'', ''<package name="com.x" userId="10123">'',
             ''<package name="com.y" userId="10124">''] [7 \<mapsto> [''old'']] of
          Inl e \<Rightarrow> Inl e
        | Inr m' \<Rightarrow> update_uid_map decimal [(''com.x'', ''com.x'')]
            [''<?xml version="1.0"?>'', ''<package name="com.x" userId="10123">'',
             ''<package name="com.y" userId="10124">''] m')
      = Inr [10123 \<mapsto> [''com.x'']]\<close>
proof -
  have e: \<open>update_uid_map decimal [(''com.x'', ''com.x'')]
      [''<?xml version="1.0"?>'', ''<package name="com.x" userId="10123">'',
       ''<package name="com.y" userId="10124">''] [7 \<mapsto> [''old'']]
      = Inr [10123 \<mapsto> [''com.x'']]\<close>
    by (simp add: update_uid_map_def parse_packages_xml_def scan_attrs.simps next_attr_def
        emplace_back_def decimal_def)
  show ?thesis
    unfolding update_uid_map_twice unfolding e by simp
qed

subsection \<open>The trace loop: detaching\<close>

lemma detach_task_in_range:
  "pid < PID_MAX \<Longrightarrow>
   detach_task pid s =
     Inr (send [PTRACE_DETACH pid 0] (s\<lparr>attaches := attaches s - {pid}, detaches := detaches s - {pid}\<rparr>))"
  by (simp add: detach_task_def bit_assign_def)

text \<open>
  C5. For every wait status and every woken process id below \<open>PID_MAX\<close> (the bound of the
  two bitsets): if the status is not a ptrace stop, or the process id is in \<open>detaches\<close>,
  the iteration sends \<^verbatim>\<open>PTRACE_DETACH\<close> with no signal, clears the bit of the process id in
  \<open>attaches\<close> and in \<open>detaches\<close>, and does nothing else.
\<close>

theorem proc_monitor_unconditional_detach:
  assumes "pid < PID_MAX" and "\<not> WIFSTOPPED status \<or> pid \<in> detaches s"
  shows "proc_monitor_iter k (int pid) status msg s =
           Inr (send [PTRACE_DETACH pid 0]
                  (s\<lparr>attaches := attaches s - {pid}, detaches := detaches s - {pid}\<rparr>))"
  using assms by (auto simp: proc_monitor_iter_def bit_test_def detach_task_in_range)

theorem proc_monitor_unconditional_detach_witness:
  "proc_monitor_iter scenario 101 0 0 (init\<lparr>attaches := {101}\<rparr>)
     = Inr (init\<lparr>requests := [PTRACE_DETACH 101 0]\<rparr>)
   \<and> proc_monitor_iter scenario 152 0x137F 0 (init\<lparr>detaches := {152}\<rparr>)
     = Inr (init\<lparr>requests := [PTRACE_DETACH 152 0]\<rparr>)"
  using proc_monitor_unconditional_detach [of 101 0 "init\<lparr>attaches := {101}\<rparr>" scenario 0]
    proc_monitor_unconditional_detach [of 152 "0x137F" "init\<lparr>detaches := {152}\<rparr>" scenario 0]
  by (simp add: PID_MAX_def WIFSTOPPED_def init_def send_def)

lemma detach_threads_fault:
  "(detach_threads k pid tids s = Inl f) =
     (f = OutOfBounds \<and> (\<exists>tid \<in> set tids. tid \<noteq> pid \<and> \<not> waitable k tid \<and> PID_MAX \<le> tid))"
  by (induction tids arbitrary: s) (auto simp: bit_assign_def)

lemma detach_pid_fault:
  "(detach_pid k pid sig s = Inl f) =
     (f = OutOfBounds \<and>
      (PID_MAX \<le> pid \<or> (\<exists>tid \<in> set (task_dir k pid). tid \<noteq> pid \<and> \<not> waitable k tid \<and> PID_MAX \<le> tid)))"
  by (auto simp: detach_pid_def bit_assign_def detach_threads_fault)

lemma iter_woken_out_of_range:
  "0 \<le> wpid \<Longrightarrow> PID_MAX \<le> nat wpid \<Longrightarrow> proc_monitor_iter k wpid status msg s = Inl OutOfBounds"
  by (simp add: proc_monitor_iter_def detach_task_def bit_assign_def bit_test_def Let_def)

lemma iter_fork_out_of_range:
  assumes "PID_MAX \<le> msg" "pid < PID_MAX" "pid \<notin> detaches s" "map_of (zygote_map s) pid \<noteq> None"
    "WIFSTOPPED status" "WSTOPSIG status = SIGTRAP"
    "WEVENT status = PTRACE_EVENT_FORK \<or> WEVENT status = PTRACE_EVENT_VFORK"
  shows "proc_monitor_iter k (int pid) status msg s = Inl OutOfBounds"
proof -
  from assms(7) have "WEVENT status \<noteq> 0"
    by (auto simp: PTRACE_EVENT_FORK_def PTRACE_EVENT_VFORK_def)
  with assms show ?thesis
    by (simp add: proc_monitor_iter_def bit_test_def zygote_event_def bit_assign_def send_def)
qed

text \<open>
  C9. \<open>attaches\<close> and \<open>detaches\<close> have exactly 32768 entries, and a test or an update at an
  index is inside the bitset exactly when the index is below 32768.  A fork or vfork
  event of a zygote whose message is 32768 or above makes line 377 index outside
  \<open>attaches\<close>; a woken process id of 32768 or above makes the iteration index outside the
  bitsets; and \<^verbatim>\<open>detach_pid\<close> indexes outside a bitset exactly when its process id is 32768
  or above or some other thread of the task directory that is not waitable has such an
  id.
\<close>

theorem bitset_index_out_of_bounds:
  "PID_MAX = 32768
   \<and> ((bit_test bs i = Inl OutOfBounds) = (PID_MAX \<le> i))
   \<and> ((bit_assign bs i v = Inl OutOfBounds) = (PID_MAX \<le> i))
   \<and> (PID_MAX \<le> msg \<and> pid < PID_MAX \<and> pid \<notin> detaches s \<and> map_of (zygote_map s) pid \<noteq> None
        \<and> WIFSTOPPED status \<and> WSTOPSIG status = SIGTRAP
        \<and> (WEVENT status = PTRACE_EVENT_FORK \<or> WEVENT status = PTRACE_EVENT_VFORK)
      \<longrightarrow> proc_monitor_iter k (int pid) status msg s = Inl OutOfBounds)
   \<and> (PID_MAX \<le> pid \<longrightarrow> proc_monitor_iter k (int pid) status msg s = Inl OutOfBounds)
   \<and> ((detach_pid k pid sig s = Inl OutOfBounds) =
        (PID_MAX \<le> pid \<or>
         (\<exists>tid \<in> set (task_dir k pid). tid \<noteq> pid \<and> \<not> waitable k tid \<and> PID_MAX \<le> tid)))"
proof -
  have a: "PID_MAX = 32768" by (simp add: PID_MAX_def)
  have b: "(bit_test bs i = Inl OutOfBounds) = (PID_MAX \<le> i)" by (auto simp: bit_test_def)
  have c: "(bit_assign bs i v = Inl OutOfBounds) = (PID_MAX \<le> i)" by (auto simp: bit_assign_def)
  have d: "PID_MAX \<le> pid \<longrightarrow> proc_monitor_iter k (int pid) status msg s = Inl OutOfBounds"
    by (simp add: iter_woken_out_of_range)
  show ?thesis using a b c d iter_fork_out_of_range [of msg pid s status k] detach_pid_fault [of k pid sig s OutOfBounds]
    by blast
qed

theorem bitset_index_out_of_bounds_witness:
  "proc_monitor_iter scenario 100 0x1057F 32768 (init\<lparr>zygote_map := [(100, ns57)]\<rparr>) = Inl OutOfBounds
   \<and> proc_monitor_iter scenario 40000 0x137F 0 init = Inl OutOfBounds
   \<and> detach_pid (scenario\<lparr>task_dir := (\<lambda>p. [101, 40000])\<rparr>) 101 0 init = Inl OutOfBounds
   \<and> bit_test {} 32768 = Inl OutOfBounds \<and> bit_assign {} 32768 True = Inl OutOfBounds"
proof -
  note T = bitset_index_out_of_bounds [THEN conjunct2]
  have w: "WIFSTOPPED 0x1057F \<and> WSTOPSIG 0x1057F = SIGTRAP \<and> WEVENT 0x1057F = PTRACE_EVENT_FORK"
    by (simp add: WIFSTOPPED_def WSTOPSIG_def WEVENT_def SIGTRAP_def PTRACE_EVENT_FORK_def)
  have 1: "proc_monitor_iter scenario 100 0x1057F 32768 (init\<lparr>zygote_map := [(100, ns57)]\<rparr>) = Inl OutOfBounds"
    using w T [of "{}" 0 True 32768 100 "init\<lparr>zygote_map := [(100, ns57)]\<rparr>" "0x1057F" scenario 0,
        THEN conjunct2, THEN conjunct2, THEN conjunct1]
    by (simp add: PID_MAX_def init_def)
  have 2: "proc_monitor_iter scenario 40000 0x137F 0 init = Inl OutOfBounds"
    using T [of "{}" 0 True 0 40000 init "0x137F" scenario 0,
        THEN conjunct2, THEN conjunct2, THEN conjunct2, THEN conjunct1]
    by (simp add: PID_MAX_def)
  have 3: "detach_pid (scenario\<lparr>task_dir := (\<lambda>p. [101, 40000])\<rparr>) 101 0 init = Inl OutOfBounds"
    using T [of "{}" 0 True 0 101 init 0 "scenario\<lparr>task_dir := (\<lambda>p. [101, 40000])\<rparr>" 0,
        THEN conjunct2, THEN conjunct2, THEN conjunct2, THEN conjunct2]
    by (simp add: PID_MAX_def scenario_def)
  have 4: "bit_test {} 32768 = Inl OutOfBounds \<and> bit_assign {} 32768 True = Inl OutOfBounds"
    using T [of "{}" 32768 True 0 0 init 0 scenario 0]
    by (simp add: PID_MAX_def)
  show ?thesis using 1 2 3 4 by blast
qed


subsection \<open>Zygote registration\<close>

lemma new_zygote_known:
  "ns_mnt k p = Some st \<Longrightarrow> map_of (zygote_map (new_zygote k p s)) p = Some st"
  by (simp add: new_zygote_def send_def update_conv' split: option.splits)

text \<open>
  C8. Registering a process as zygote twice, the namespace link being read as \<open>k1\<close> says
  the first time and as \<open>k2\<close> says the second time, gives the state of one registration
  made with the latest reading (of the first one alone when the second reading fails):
  the stored identity is the latest one read, \<^verbatim>\<open>PTRACE_ATTACH\<close> is sent at most once over
  both calls, and once the first call has read an identity the second call sends nothing.
\<close>

theorem new_zygote_twice:
  "new_zygote k2 p (new_zygote k1 p s) =
     (case ns_mnt k2 p of None \<Rightarrow> new_zygote k1 p s | Some st2 \<Rightarrow> new_zygote k2 p s)
   \<and> length (filter (\<lambda>r. r = PTRACE_ATTACH p) (new_requests s (new_zygote k2 p (new_zygote k1 p s)))) \<le> 1
   \<and> (case ns_mnt k1 p of
        None \<Rightarrow> True
      | Some st1 \<Rightarrow> requests (new_zygote k2 p (new_zygote k1 p s)) = requests (new_zygote k1 p s))"
proof -
  have eq: "new_zygote k2 p (new_zygote k1 p s) =
     (case ns_mnt k2 p of None \<Rightarrow> new_zygote k1 p s | Some st2 \<Rightarrow> new_zygote k2 p s)"
  proof (cases "ns_mnt k2 p")
    case None
    then show ?thesis by (simp add: new_zygote_def)
  next
    case (Some st2)
    show ?thesis
    proof (cases "ns_mnt k1 p")
      case None
      with Some show ?thesis by (simp add: new_zygote_def)
    next
      case (Some st1)
      with \<open>ns_mnt k2 p = Some st2\<close> show ?thesis
        by (cases "map_of (zygote_map s) p")
          (simp_all add: new_zygote_def send_def update_conv')
    qed
  qed
  have cnt: "length (filter (\<lambda>r. r = PTRACE_ATTACH p) (new_requests s (new_zygote k p s))) \<le> 1" for k
    by (simp add: new_zygote_def new_requests_def send_def split: option.splits)
  have once: "length (filter (\<lambda>r. r = PTRACE_ATTACH p) (new_requests s (new_zygote k2 p (new_zygote k1 p s)))) \<le> 1"
    unfolding eq using cnt by (cases "ns_mnt k2 p") simp_all
  have same: "ns_mnt k1 p = Some st1 \<Longrightarrow>
      requests (new_zygote k2 p (new_zygote k1 p s)) = requests (new_zygote k1 p s)" for st1
    using new_zygote_known [of k1 p st1 s]
    by (cases "ns_mnt k2 p") (simp_all add: new_zygote_def [of k2])
  show ?thesis using eq once same by (simp split: option.splits)
qed


theorem new_zygote_twice_witness:
  "new_zygote (scenario\<lparr>ns_mnt := (\<lambda>p. Some ns59)\<rparr>) 100 (new_zygote scenario 100 init)
     = init\<lparr>zygote_map := [(100, ns59)],
            requests := [PTRACE_ATTACH 100, Waitpid 100,
                         PTRACE_SETOPTIONS 100
                           [PTRACE_O_TRACEFORK, PTRACE_O_TRACEVFORK, PTRACE_O_TRACEEXIT],
                         PTRACE_CONT 100 0]\<rparr>
   \<and> new_zygote scenario 100 init
     = init\<lparr>zygote_map := [(100, ns57)],
            requests := [PTRACE_ATTACH 100, Waitpid 100,
                         PTRACE_SETOPTIONS 100
                           [PTRACE_O_TRACEFORK, PTRACE_O_TRACEVFORK, PTRACE_O_TRACEEXIT],
                         PTRACE_CONT 100 0]\<rparr>"
proof -
  have e1: "new_zygote scenario 100 init
     = init\<lparr>zygote_map := [(100, ns57)],
            requests := [PTRACE_ATTACH 100, Waitpid 100,
                         PTRACE_SETOPTIONS 100
                           [PTRACE_O_TRACEFORK, PTRACE_O_TRACEVFORK, PTRACE_O_TRACEEXIT],
                         PTRACE_CONT 100 0]\<rparr>"
    by (simp add: new_zygote_def init_def send_def scenario_def)
  have e: "new_zygote (scenario\<lparr>ns_mnt := (\<lambda>p. Some ns59)\<rparr>) 100 init
     = init\<lparr>zygote_map := [(100, ns59)],
            requests := [PTRACE_ATTACH 100, Waitpid 100,
                         PTRACE_SETOPTIONS 100
                           [PTRACE_O_TRACEFORK, PTRACE_O_TRACEVFORK, PTRACE_O_TRACEEXIT],
                         PTRACE_CONT 100 0]\<rparr>"
    by (simp add: new_zygote_def init_def send_def)
  show ?thesis
    using new_zygote_twice [of "scenario\<lparr>ns_mnt := (\<lambda>p. Some ns59)\<rparr>" 100 scenario init,
        THEN conjunct1] e e1
    by simp
qed

subsection \<open>Classification\<close>

lemma send_send: "send rs (send rs' s) = send (rs' @ rs) s"
  by (simp add: send_def)

lemma clone_of_candidate:
  assumes "pid < PID_MAX" "pid \<in> attaches s" "pid \<notin> detaches s" "map_of (zygote_map s) pid = None"
    "WIFSTOPPED status" "WSTOPSIG status = SIGTRAP" "WEVENT status = PTRACE_EVENT_CLONE"
  shows "proc_monitor_iter k (int pid) status msg s =
           (case check_pid k pid (send [PTRACE_GETEVENTMSG pid] s) of
              Inl f \<Rightarrow> Inl f
            | Inr (True, s') \<Rightarrow> Inr s'
            | Inr (False, s') \<Rightarrow> Inr (send [PTRACE_CONT pid 0] s'))"
proof -
  from assms(7) have "WEVENT status \<noteq> 0" by (simp add: PTRACE_EVENT_CLONE_def)
  with assms show ?thesis
    by (simp add: proc_monitor_iter_def bit_test_def child_event_def send_def)
qed

text \<open>
  C1 (as the code has it). When the command line of the process starts with \<^verbatim>\<open>zygote\<close>,
  \<^verbatim>\<open>check_pid\<close> returns \<^verbatim>\<open>false\<close> and changes nothing: no detach is sent, the process stays
  in \<open>attaches\<close>, the zygote map is as before.  The iteration of the loop that classified
  it at a clone event then resumes it with \<^verbatim>\<open>PTRACE_CONT\<close>, still traced.
\<close>

theorem check_pid_zygote_cmdline:
  assumes "cmdline_of k pid = Some c" and "take 6 c = ''zygote''"
  shows "check_pid k pid s = Inr (False, s)
     \<and> (pid < PID_MAX \<and> pid \<in> attaches s \<and> pid \<notin> detaches s \<and> map_of (zygote_map s) pid = None
          \<and> WIFSTOPPED status \<and> WSTOPSIG status = SIGTRAP \<and> WEVENT status = PTRACE_EVENT_CLONE
        \<longrightarrow> proc_monitor_iter k (int pid) status msg s =
              Inr (send [PTRACE_GETEVENTMSG pid, PTRACE_CONT pid 0] s))"
proof -
  have c: "check_pid k pid s = Inr (False, s)" for s
    using assms by (simp add: check_pid_def)
  show ?thesis
    by (simp add: c clone_of_candidate send_send)
qed

theorem check_pid_zygote_cmdline_witness:
  "check_pid scenario 102 (registered\<lparr>attaches := {102}\<rparr>) = Inr (False, registered\<lparr>attaches := {102}\<rparr>)
   \<and> proc_monitor_iter scenario 102 0x3057F 0 (registered\<lparr>attaches := {102}\<rparr>)
       = Inr (registered\<lparr>attaches := {102}, requests := [PTRACE_GETEVENTMSG 102, PTRACE_CONT 102 0]\<rparr>)"
proof -
  have w: "WIFSTOPPED 0x3057F \<and> WSTOPSIG 0x3057F = SIGTRAP \<and> WEVENT 0x3057F = PTRACE_EVENT_CLONE"
    by (simp add: WIFSTOPPED_def WSTOPSIG_def WEVENT_def SIGTRAP_def PTRACE_EVENT_CLONE_def)
  have h: "cmdline_of scenario 102 = Some ''zygote64''" "take 6 ''zygote64'' = ''zygote''"
    by (simp_all add: scenario_def)
  show ?thesis
    using w check_pid_zygote_cmdline [OF h, of "registered\<lparr>attaches := {102}\<rparr>" "0x3057F" 0]
    by (simp add: PID_MAX_def registered_def init_def send_def)
qed

text \<open>
  C1 as claimed fails: child 102 has the command line \<^verbatim>\<open>zygote64\<close>; after its clone event
  it is still in \<open>attaches\<close> and no \<^verbatim>\<open>PTRACE_DETACH\<close> has been sent.
\<close>

theorem check_pid_zygote_cmdline_not_detached:
  "proc_monitor_iter scenario 102 0x3057F 0 (registered\<lparr>attaches := {102}\<rparr>)
       = Inr (registered\<lparr>attaches := {102}, requests := [PTRACE_GETEVENTMSG 102, PTRACE_CONT 102 0]\<rparr>)
   \<and> 102 \<in> attaches (registered\<lparr>attaches := {102}, requests := [PTRACE_GETEVENTMSG 102, PTRACE_CONT 102 0]\<rparr>)
   \<and> PTRACE_DETACH 102 0 \<notin> set (requests (registered\<lparr>attaches := {102}, requests := [PTRACE_GETEVENTMSG 102, PTRACE_CONT 102 0]\<rparr>))"
  by (simp add: proc_monitor_iter_def bit_test_def child_event_def check_pid_def send_def
      WIFSTOPPED_def WSTOPSIG_def WEVENT_def SIGTRAP_def PTRACE_EVENT_CLONE_def
      PID_MAX_def registered_def init_def scenario_def)

text \<open>
  C4 (as the code has it). When \<^verbatim>\<open>/proc/<pid>/cmdline\<close> cannot be opened, \<^verbatim>\<open>check_pid\<close> returns
  \<^verbatim>\<open>true\<close> and changes nothing, and the iteration that classified the process at a clone
  event goes on to the next wait without a fault: nothing is handed off, and neither a
  detach nor a resume is sent; the process stays in \<open>attaches\<close>.
\<close>

theorem check_pid_cmdline_unreadable:
  assumes "cmdline_of k pid = None"
  shows "check_pid k pid s = Inr (True, s)
     \<and> (pid < PID_MAX \<and> pid \<in> attaches s \<and> pid \<notin> detaches s \<and> map_of (zygote_map s) pid = None
          \<and> WIFSTOPPED status \<and> WSTOPSIG status = SIGTRAP \<and> WEVENT status = PTRACE_EVENT_CLONE
        \<longrightarrow> proc_monitor_iter k (int pid) status msg s = Inr (send [PTRACE_GETEVENTMSG pid] s))"
proof -
  have c: "check_pid k pid s = Inr (True, s)" for s
    using assms by (simp add: check_pid_def)
  show ?thesis
    by (simp add: c clone_of_candidate)
qed

theorem check_pid_cmdline_unreadable_witness:
  "check_pid scenario 103 (registered\<lparr>attaches := {103}\<rparr>) = Inr (True, registered\<lparr>attaches := {103}\<rparr>)
   \<and> proc_monitor_iter scenario 103 0x3057F 0 (registered\<lparr>attaches := {103}\<rparr>)
       = Inr (registered\<lparr>attaches := {103}, requests := [PTRACE_GETEVENTMSG 103]\<rparr>)"
proof -
  have w: "WIFSTOPPED 0x3057F \<and> WSTOPSIG 0x3057F = SIGTRAP \<and> WEVENT 0x3057F = PTRACE_EVENT_CLONE"
    by (simp add: WIFSTOPPED_def WSTOPSIG_def WEVENT_def SIGTRAP_def PTRACE_EVENT_CLONE_def)
  have h: "cmdline_of scenario 103 = None"
    by (simp add: scenario_def)
  show ?thesis
    using w check_pid_cmdline_unreadable [OF h, of "registered\<lparr>attaches := {103}\<rparr>" "0x3057F" 0]
    by (simp add: PID_MAX_def registered_def init_def send_def)
qed

text \<open>
  C4 as claimed fails: process 103 cannot be read and stays in \<open>attaches\<close> with nothing
  sent, whereas the non-target 104 is detached and leaves \<open>attaches\<close>.
\<close>

theorem check_pid_cmdline_unreadable_differs:
  "proc_monitor_iter scenario 103 0x3057F 0 (registered\<lparr>attaches := {103}\<rparr>)
       = Inr (registered\<lparr>attaches := {103}, requests := [PTRACE_GETEVENTMSG 103]\<rparr>)
   \<and> proc_monitor_iter scenario 104 0x3057F 0 (registered\<lparr>attaches := {104}\<rparr>)
       = Inr (registered\<lparr>attaches := {}, requests := [PTRACE_GETEVENTMSG 104, PTRACE_DETACH 104 0]\<rparr>)"
  by (simp add: proc_monitor_iter_def bit_test_def bit_assign_def child_event_def check_pid_def
      detach_pid_def send_def
      WIFSTOPPED_def WSTOPSIG_def WEVENT_def SIGTRAP_def PTRACE_EVENT_CLONE_def
      PID_MAX_def registered_def init_def scenario_def)


lemma mnt_ns_iff:
  "mnt_ns zm st = (\<forall>z \<in> set zm. (st_dev (snd z), st_ino (snd z)) \<noteq> (st_dev st, st_ino st))"
  by (induction zm) auto

lemma find_target_iff:
  "ns_mnt k pid = Some ns \<Longrightarrow>
   find_target k pid st zm c procs = (c \<in> set procs \<and> mnt_ns zm ns)"
  by (induction procs) (auto simp: read_ns_def)

lemma detach_threads_requests:
  "detach_threads k pid tids s = Inr s' \<Longrightarrow>
   \<exists>rs. requests s' = requests s @ rs \<and> Hide_daemon p \<notin> set rs"
proof (induction tids arbitrary: s)
  case Nil
  then show ?case by simp
next
  case (Cons tid tids)
  show ?case
  proof (cases "tid \<noteq> pid")
    case False
    with Cons show ?thesis by simp
  next
    case True
    show ?thesis
    proof (cases "waitable k tid")
      case True
      with \<open>tid \<noteq> pid\<close> Cons.prems
      have "detach_threads k pid tids (send [PTRACE_DETACH tid 0] s) = Inr s'" by simp
      from Cons.IH [OF this] show ?thesis by (auto simp: send_def)
    next
      case False
      with \<open>tid \<noteq> pid\<close> Cons.prems obtain d where
        "detach_threads k pid tids (send [Tgkill pid tid SIGSTOP] (s\<lparr>detaches := d\<rparr>)) = Inr s'"
        by (auto split: sum.splits)
      from Cons.IH [OF this] show ?thesis by (auto simp: send_def)
    qed
  qed
qed

lemma detach_pid_requests:
  assumes "detach_pid k pid sig s = Inr s'"
  shows "\<exists>rs. requests s' = requests s @ PTRACE_DETACH pid sig # rs \<and> Hide_daemon p \<notin> set rs"
proof -
  from assms obtain a where
    "detach_threads k pid (task_dir k pid) (send [PTRACE_DETACH pid sig] (s\<lparr>attaches := a\<rparr>)) = Inr s'"
    by (auto simp: detach_pid_def split: sum.splits)
  from detach_threads_requests [OF this, of p] show ?thesis by (auto simp: send_def)
qed

text \<open>
  When \<^verbatim>\<open>/proc/<pid>/ns/mnt\<close> can be read, as \<open>ns\<close>: if \<^verbatim>\<open>check_pid\<close> hands the process to the
  hide daemon, then \<open>ns\<close> differs (in device or inode) from the stored identity of every
  zygote of the map, \<^verbatim>\<open>PTRACE_DETACH\<close> with SIGSTOP has been sent and the result is \<^verbatim>\<open>true\<close>;
  and if \<open>ns\<close> equals the stored identity of some zygote, and the command line is readable
  and does not start with \<^verbatim>\<open>zygote\<close>, then \<^verbatim>\<open>check_pid\<close> is the plain \<^verbatim>\<open>detach_pid\<close> (signal 0)
  and nothing is handed to the hide daemon.
\<close>

lemma check_pid_target_ns_separated:
  assumes ns: "ns_mnt k pid = Some ns" and res: "check_pid k pid s = Inr (r, s')"
  shows "(Hide_daemon pid \<in> set (new_requests s s') \<longrightarrow>
            (\<forall>z \<in> set (zygote_map s). (st_dev (snd z), st_ino (snd z)) \<noteq> (st_dev ns, st_ino ns))
            \<and> r \<and> PTRACE_DETACH pid SIGSTOP \<in> set (new_requests s s'))
       \<and> ((\<exists>z \<in> set (zygote_map s). (st_dev (snd z), st_ino (snd z)) = (st_dev ns, st_ino ns))
            \<and> cmdline_of k pid = Some c \<and> take 6 c \<noteq> ''zygote'' \<longrightarrow>
            r \<and> detach_pid k pid 0 s = Inr s' \<and> Hide_daemon pid \<notin> set (new_requests s s'))"
proof (cases "cmdline_of k pid")
  case None
  with res show ?thesis by (simp add: check_pid_def new_requests_def)
next
  case (Some cmdline)
  show ?thesis
  proof (cases "take 6 cmdline = ''zygote''")
    case True
    with Some res show ?thesis by (auto simp: check_pid_def new_requests_def)
  next
    case False
    define st where "st = (case lstat_proc k pid of None \<Rightarrow> stack_st k | Some st' \<Rightarrow> st')"
    define target where "target =
      (case uid_proc_map s (int (st_uid st mod 100000)) of
         None \<Rightarrow> False
       | Some procs \<Rightarrow> find_target k pid st (zygote_map s) cmdline procs)"
    have sep: "target \<Longrightarrow> mnt_ns (zygote_map s) ns"
      by (auto simp: target_def find_target_iff [OF ns] split: option.splits)
    have unf: "check_pid k pid s =
        (if target then (case detach_pid k pid SIGSTOP s of
                          Inl f \<Rightarrow> Inl f
                        | Inr s' \<Rightarrow> Inr (True, send [Hide_daemon pid] s'))
         else (case detach_pid k pid 0 s of Inl f \<Rightarrow> Inl f | Inr s' \<Rightarrow> Inr (True, s')))"
      unfolding target_def st_def check_pid_def Let_def using Some False by simp
    show ?thesis
    proof (cases target)
      case True
      with unf res obtain s1 where d: "detach_pid k pid SIGSTOP s = Inr s1"
        and s': "s' = send [Hide_daemon pid] s1" and r: r
        by (auto split: sum.splits)
      from detach_pid_requests [OF d, of pid] obtain rs where
        "requests s1 = requests s @ PTRACE_DETACH pid SIGSTOP # rs" by blast
      with s' have "new_requests s s' = PTRACE_DETACH pid SIGSTOP # rs @ [Hide_daemon pid]"
        by (simp add: new_requests_def send_def)
      with r sep [OF True] show ?thesis by (auto simp: mnt_ns_iff)
    next
      case False
      with unf res have d: "detach_pid k pid 0 s = Inr s'" and r: r
        by (auto split: sum.splits)
      from detach_pid_requests [OF d, of pid] obtain rs where
        "requests s' = requests s @ PTRACE_DETACH pid 0 # rs" "Hide_daemon pid \<notin> set rs" by blast
      then have "Hide_daemon pid \<notin> set (new_requests s s')"
        by (simp add: new_requests_def)
      with r d show ?thesis by simp
    qed
  qed
qed


text \<open>
  C2. \<^verbatim>\<open>check_pid\<close> is to hand a process to the hide daemon only when its mount-namespace
  identity, as read from \<^verbatim>\<open>/proc/<pid>/ns/mnt\<close>, differs from the stored identity of every
  registered zygote.  Line 262 does not look at the result of \<^verbatim>\<open>read_ns\<close> (line 294 of
  \<^verbatim>\<open>new_zygote\<close> does): when the link cannot be read, \<open>st\<close> still holds the \<^verbatim>\<open>lstat\<close> of
  \<^verbatim>\<open>/proc/<pid>\<close> from line 255, whose device and inode are those of no namespace, the
  loop over the zygotes finds no equal identity, and the process is handed off.  Here
  child 101 matches the rule for \<^verbatim>\<open>com.x\<close>, the link of 101 is unreadable, and
  \<^verbatim>\<open>PTRACE_DETACH\<close> with SIGSTOP and the hide daemon follow although no identity was read.
\<close>

theorem check_pid_unread_ns_handed_off:
  "ns_mnt (scenario\<lparr>ns_mnt := (\<lambda>p. None)\<rparr>) 101 = None
   \<and> check_pid (scenario\<lparr>ns_mnt := (\<lambda>p. None)\<rparr>) 101 (registered\<lparr>attaches := {101}\<rparr>)
     = Inr (True, registered\<lparr>detaches := {152},
              requests := [PTRACE_DETACH 101 SIGSTOP, PTRACE_DETACH 151 0,
                           Tgkill 101 152 SIGSTOP, Hide_daemon 101]\<rparr>)"
  by (simp add: check_pid_def detach_pid_def bit_assign_def read_ns_def send_def PID_MAX_def
      scenario_def registered_def init_def ns57_def)

subsection \<open>The two bitsets\<close>

lemmas run_defs = proc_monitor_def check_zygote_def parse_ppid_def new_zygote_def
  proc_monitor_iter_def zygote_event_def child_event_def check_pid_def detach_pid_def detach_task_def
  bit_test_def bit_assign_def read_ns_def send_def inotify_event_def
  WIFSTOPPED_def WSTOPSIG_def WEVENT_def SIGTRAP_def SIGSTOP_def
  PTRACE_EVENT_FORK_def PTRACE_EVENT_VFORK_def PTRACE_EVENT_CLONE_def PID_MAX_def
  scenario_def init_def ns57_def ns59_def

text \<open>
  C6. No process id is to be in \<open>attaches\<close> and in \<open>detaches\<close> at once.  Line 377 sets
  \<^verbatim>\<open>attaches[msg]\<close> without looking at the result of \<^verbatim>\<open>PTRACE_GETEVENTMSG\<close> on line 370, so
  when that request fails (the zygote was killed after the wait returned) the bit set
  is that of whatever the local \<open>msg\<close> holds.  In this run zygote 100 forks 101; 101
  stops and is armed; at its clone event, whose message is the new thread 152, 101 is
  no target and is detached, and 152, not yet waitable, is put into \<open>detaches\<close> and sent
  SIGSTOP; then a fork event of 100 is reported, the message request fails and \<open>msg\<close>
  still holds 152: 152 is put into \<open>attaches\<close> while it is in \<open>detaches\<close>.
\<close>

theorem attaches_detaches_overlap:
  "proc_monitor decimal [] scenario
     [Wait scenario 100 0x1057F 101, Wait scenario 101 0x137F 0,
      Wait scenario 101 0x3057F 152, Wait scenario 100 0x1057F 152] init
   = Inr \<lparr>zygote_map = [(100, ns57)], uid_proc_map = Map.empty,
          attaches = {152}, detaches = {152},
          requests =
            [PTRACE_ATTACH 100, Waitpid 100,
             PTRACE_SETOPTIONS 100 [PTRACE_O_TRACEFORK, PTRACE_O_TRACEVFORK, PTRACE_O_TRACEEXIT],
             PTRACE_CONT 100 0,
             PTRACE_GETEVENTMSG 100, PTRACE_CONT 100 0,
             PTRACE_SETOPTIONS 101 [PTRACE_O_TRACECLONE, PTRACE_O_TRACEEXEC, PTRACE_O_TRACEEXIT],
             PTRACE_CONT 101 0,
             PTRACE_GETEVENTMSG 101, PTRACE_DETACH 101 0, PTRACE_DETACH 151 0,
             Tgkill 101 152 SIGSTOP,
             PTRACE_GETEVENTMSG 100, PTRACE_CONT 100 0]\<rparr>"
  by (simp add: run_defs insert_Diff_if)

subsection \<open>Order of the attributes of a record\<close>

lemma add_procs_other:
  "pkg \<notin> fst ` set hs \<Longrightarrow> add_procs hs pkg uid m = m"
  by (induction hs arbitrary: m) auto

lemma find_pkg_eq:
  "find_pkg hs v pkg = (if v \<in> fst ` set hs then v else pkg)"
  by (induction hs) auto

lemma attrs_of_Attr:
  "next_attr tok = Attr key val rest \<Longrightarrow> attrs_of tok = (key, val) # attrs_of rest"
  by (cases "tok = []") (auto simp: attrs_of.simps [of tok] next_attr_def)

lemma attrs_of_Cons:
  assumes "attrs_of tok = a # as"
  shows "tok \<noteq> [] \<and> (\<exists>rest. next_attr tok = Attr (fst a) (snd a) rest \<and> attrs_of rest = as)"
proof -
  from assms have ne: "tok \<noteq> []" by (auto simp: attrs_of.simps [of tok])
  with assms show ?thesis
    by (cases "next_attr tok") (auto simp: attrs_of.simps [of tok])
qed

lemma scan_attrs_changes:
  assumes ne: "[] \<notin> fst ` set hs"
  shows "scan_attrs parse_int hs pkg tok m = Inr m' \<Longrightarrow> m' \<noteq> m \<Longrightarrow>
         (pkg \<noteq> [] \<and> list_ex is_uid_attr (attrs_of tok)) \<or> name_before_uid hs (attrs_of tok)"
  using ne
proof (induction parse_int hs pkg tok m arbitrary: m' rule: scan_attrs.induct)
  case (1 parse_int hs pkg tok m)
  note res = \<open>scan_attrs parse_int hs pkg tok m = Inr m'\<close> and diff = \<open>m' \<noteq> m\<close>
    and ne = \<open>[] \<notin> fst ` set hs\<close>
  note unf = \<open>scan_attrs parse_int hs pkg tok m = Inr m'\<close> [unfolded scan_attrs.simps [of parse_int hs pkg tok m]]
  show ?case
  proof (cases "tok = []")
    case True
    with unf diff show ?thesis by simp
  next
    case tok: False
    show ?thesis
    proof (cases "next_attr tok")
      case NoEq
      with tok unf diff show ?thesis by simp
    next
      case NoQuote
      with tok unf show ?thesis by simp
    next
      case (Attr key val rest)
      note as = attrs_of_Attr [OF Attr]
      show ?thesis
      proof (cases "key = ''name''")
        case name: True
        show ?thesis
        proof (cases "find_pkg hs val pkg = []")
          case True
          with name Attr tok unf diff show ?thesis
            by simp
        next
          case False
          with name Attr tok unf
          have r: "scan_attrs parse_int hs (find_pkg hs val pkg) rest m = Inr m'"
            by simp
          from "1.IH"(1) [OF tok Attr name False r diff ne]
          have "(find_pkg hs val pkg \<noteq> [] \<and> list_ex is_uid_attr (attrs_of rest))
                \<or> name_before_uid hs (attrs_of rest)" .
          then show ?thesis
            using name by (auto simp: as find_pkg_eq split: if_splits)
        qed
      next
        case not_name: False
        show ?thesis
        proof (cases "key = ''userId'' \<or> key = ''sharedUserId''")
          case uid: True
          with not_name Attr tok unf
          have r: "scan_attrs parse_int hs pkg rest (add_procs hs pkg (parse_int val) m) = Inr m'"
            by simp
          show ?thesis
          proof (cases "m' = add_procs hs pkg (parse_int val) m")
            case True
            with diff have "pkg \<in> fst ` set hs"
              using add_procs_other [of pkg hs "parse_int val" m] by auto
            with ne have "pkg \<noteq> []" by force
            with uid show ?thesis by (simp add: as is_uid_attr_def)
          next
            case False
            from "1.IH"(2) [OF tok Attr not_name uid r False ne]
            show ?thesis by (auto simp: as)
          qed
        next
          case other: False
          with not_name Attr tok unf
          have r: "scan_attrs parse_int hs pkg rest m = Inr m'"
            by simp
          from "1.IH"(3) [OF tok Attr not_name other r diff ne]
          show ?thesis by (auto simp: as)
        qed
      qed
    qed
  qed
qed

lemma scan_attrs_first_name_unmatched:
  assumes "[] \<notin> fst ` set hs" and "v \<notin> fst ` set hs"
  shows "attrs_of tok = pre @ (''name'', v) # post \<Longrightarrow> ''name'' \<notin> fst ` set pre \<Longrightarrow>
         scan_attrs parse_int hs [] tok m = Inr m"
proof (induction pre arbitrary: tok)
  case Nil
  then have "attrs_of tok = (''name'', v) # post" by simp
  from attrs_of_Cons [OF this] obtain rest where "tok \<noteq> []" "next_attr tok = Attr ''name'' v rest"
    by auto
  with assms(2) show ?case
    by (simp add: scan_attrs.simps [of parse_int hs "[]" tok m] find_pkg_eq)
next
  case (Cons a pre)
  then have "attrs_of tok = a # (pre @ (''name'', v) # post)" by simp
  from attrs_of_Cons [OF this] obtain rest where tok: "tok \<noteq> []"
    and na: "next_attr tok = Attr (fst a) (snd a) rest"
    and rest: "attrs_of rest = pre @ (''name'', v) # post"
    by auto
  from Cons.prems(2) have a: "fst a \<noteq> ''name''" and pre: "''name'' \<notin> fst ` set pre" by auto
  from Cons.IH [OF rest pre] have ih: "scan_attrs parse_int hs [] rest m = Inr m" .
  from assms(1) have "add_procs hs [] uid m = m" for uid
    by (rule add_procs_other)
  with tok na a ih show ?case
    by (simp add: scan_attrs.simps [of parse_int hs "[]" tok m])
qed

text \<open>
  C10 (as the code has it). Let no rule have the empty package name.  If parsing a line
  changes the uid map, then among the attributes of the record a \<^verbatim>\<open>name\<close> attribute whose
  value is the package of a rule stands before a \<^verbatim>\<open>userId\<close> or \<^verbatim>\<open>sharedUserId\<close> attribute.
  And if the first \<^verbatim>\<open>name\<close> attribute of a record has a value that is the package of no
  rule, the rest of the record is skipped: the parser returns with the map unchanged.
\<close>

theorem parse_packages_xml_attribute_order:
  assumes "[] \<notin> fst ` set hs"
  shows "(parse_packages_xml parse_int hs s m = Inr (b, m') \<and> m' \<noteq> m
            \<longrightarrow> name_before_uid hs (attrs_of (butlast (drop 9 s))))
       \<and> (take 9 s = ''<package '' \<and> attrs_of (butlast (drop 9 s)) = pre @ (''name'', v) # post
            \<and> ''name'' \<notin> fst ` set pre \<and> v \<notin> fst ` set hs
            \<longrightarrow> parse_packages_xml parse_int hs s m = Inr (True, m))"
proof (intro conjI impI)
  assume "parse_packages_xml parse_int hs s m = Inr (b, m') \<and> m' \<noteq> m"
  then have "scan_attrs parse_int hs [] (butlast (drop 9 s)) m = Inr m'" and "m' \<noteq> m"
    by (auto simp: parse_packages_xml_def split: if_splits sum.splits)
  from scan_attrs_changes [OF assms this]
  show "name_before_uid hs (attrs_of (butlast (drop 9 s)))" by simp
next
  assume h: "take 9 s = ''<package '' \<and> attrs_of (butlast (drop 9 s)) = pre @ (''name'', v) # post
            \<and> ''name'' \<notin> fst ` set pre \<and> v \<notin> fst ` set hs"
  then have "scan_attrs parse_int hs [] (butlast (drop 9 s)) m = Inr m"
    using scan_attrs_first_name_unmatched [OF assms, of v "butlast (drop 9 s)" pre post parse_int m]
    by blast
  with h show "parse_packages_xml parse_int hs s m = Inr (True, m)"
    by (simp add: parse_packages_xml_def)
qed


theorem parse_packages_xml_attribute_order_witness:
  \<open>parse_packages_xml decimal [(''com.x'', ''p'')] ''<package name="com.x" userId="10">'' Map.empty
     = Inr (True, [10 \<mapsto> [''p'']])
   \<and> name_before_uid [(''com.x'', ''p'')]
        (attrs_of (butlast (drop 9 ''<package name="com.x" userId="10">'')))
   \<and> attrs_of (butlast (drop 9 ''<package name="com.y" userId="10">''))
     = [(''name'', ''com.y''), (''userId'', ''10'')]
   \<and> parse_packages_xml decimal [(''com.x'', ''p'')] ''<package name="com.y" userId="10">'' Map.empty
     = Inr (True, Map.empty)
   \<and> parse_packages_xml decimal [(''com.x'', ''p'')] ''<package userId="10" name="com.x">'' Map.empty
     = Inr (True, Map.empty)\<close>
proof -
  have h: \<open>[] \<notin> fst ` set [(''com.x'', ''p'')]\<close> by simp
  have e1: \<open>parse_packages_xml decimal [(''com.x'', ''p'')] ''<package name="com.x" userId="10">'' Map.empty
     = Inr (True, [10 \<mapsto> [''p'']])\<close>
    by (simp add: parse_packages_xml_def scan_attrs.simps next_attr_def emplace_back_def decimal_def)
  have d: \<open>[10 \<mapsto> [''p'']] \<noteq> (Map.empty :: uid_proc_map_t)\<close> by simp
  from parse_packages_xml_attribute_order [OF h, THEN conjunct1,
      of decimal \<open>''<package name="com.x" userId="10">''\<close> Map.empty True \<open>[10 \<mapsto> [''p'']]\<close>] e1 d
  have n: \<open>name_before_uid [(''com.x'', ''p'')]
        (attrs_of (butlast (drop 9 ''<package name="com.x" userId="10">'')))\<close>
    by blast
  have a': \<open>attrs_of (butlast (drop 9 ''<package name="com.y" userId="10">''))
     = [(''name'', ''com.y''), (''userId'', ''10'')]\<close>
    by (simp add: attrs_of.simps next_attr_def)
  from parse_packages_xml_attribute_order [OF h,
      where s = \<open>''<package name="com.y" userId="10">''\<close> and pre = \<open>[]\<close> and v = \<open>''com.y''\<close>
        and post = \<open>[(''userId'', ''10'')]\<close> and parse_int = decimal and m = Map.empty,
      THEN conjunct2] a'
  have e2: \<open>parse_packages_xml decimal [(''com.x'', ''p'')] ''<package name="com.y" userId="10">'' Map.empty
     = Inr (True, Map.empty)\<close>
    by simp
  have e3: \<open>parse_packages_xml decimal [(''com.x'', ''p'')] ''<package userId="10" name="com.x">'' Map.empty
     = Inr (True, Map.empty)\<close>
    by (simp add: parse_packages_xml_def scan_attrs.simps next_attr_def emplace_back_def decimal_def)
  show ?thesis
    by (intro conjI) (rule e1 n a' e2 e3)+
qed

text \<open>
  C10 as claimed fails in two places.  A \<^verbatim>\<open>name\<close> attribute that matches no rule does not
  end the record when an earlier \<^verbatim>\<open>name\<close> attribute has matched: \<open>pkg\<close> keeps the earlier
  package, line 106 finds it non-empty, and the \<^verbatim>\<open>userId\<close> that follows adds an entry.  And
  when a rule has the empty package name, a record with no \<^verbatim>\<open>name\<close> attribute at all adds
  an entry, the initial \<open>pkg\<close> being equal to that package.
\<close>

theorem parse_packages_xml_order_counterexample:
  \<open>attrs_of (butlast (drop 9 ''<package name="com.x" name="y" userId="10">''))
     = [(''name'', ''com.x''), (''name'', ''y''), (''userId'', ''10'')]
   \<and> ''y'' \<notin> fst ` set [(''com.x'', ''p'')]
   \<and> parse_packages_xml decimal [(''com.x'', ''p'')]
        ''<package name="com.x" name="y" userId="10">'' Map.empty
     = Inr (True, [10 \<mapsto> [''p'']])
   \<and> attrs_of (butlast (drop 9 ''<package userId="1">'')) = [(''userId'', ''1'')]
   \<and> parse_packages_xml decimal [([], ''p'')] ''<package userId="1">'' Map.empty
     = Inr (True, [1 \<mapsto> [''p'']])\<close>
  by (simp add: parse_packages_xml_def scan_attrs.simps attrs_of.simps next_attr_def
      emplace_back_def decimal_def)


end
